theory Spec2Isabelle
  imports Main
begin

section \<open>taskschedule: the curses schedule view (\<open>taskschedule/main.py\<close>)\<close>

text \<open>
  The module has two functions: \<open>draw\<close>, the endless refresh loop that paints the
  schedule of one day on a curses window, and \<open>main\<close>, which reads the command line
  and starts \<open>draw\<close>. The classes \<open>Schedule\<close> and \<open>ScheduledTask\<close> live in other
  modules; what \<open>draw\<close> reads from them enters the model as data (the fields of a task,
  the buckets and the column offsets of a tick) or as a parameter (the methods
  \<open>overdue\<close> and \<open>should_be_active\<close>). The wall clock and the curses window are
  parameters too: the clock gives the hour of its k-th reading, and the window decides
  whether a write fits.
\<close>

subsection \<open>Errors\<close>

datatype error =
    IndexError    \<comment> \<open>a list or dict lookup that misses\<close>
  | ValueError    \<comment> \<open>\<open>int\<close> of a non-number, \<open>time.sleep\<close> of a negative length\<close>
  | OverflowError \<comment> \<open>\<open>time.sleep\<close> of a length beyond the range of timestamps\<close>
  | CursesError   \<comment> \<open>\<open>curses.error\<close>: a write the window refuses\<close>
  | SystemExit    \<comment> \<open>argparse rejecting the command line\<close>

definition bind_err :: "error + 'a \<Rightarrow> ('a \<Rightarrow> error + 'b) \<Rightarrow> error + 'b" where
  "bind_err m f = (case m of Inl e \<Rightarrow> Inl e | Inr x \<Rightarrow> f x)"

definition getitem :: "'a list \<Rightarrow> nat \<Rightarrow> error + 'a" where
  "getitem xs k = (if k < length xs then Inr (xs ! k) else Inl IndexError)"

subsection \<open>Python's \<open>str\<close> and \<open>int\<close> on decimal numbers\<close>

definition digit_char :: "nat \<Rightarrow> char" where
  "digit_char d = ''0123456789'' ! d"

function str_nat :: "nat \<Rightarrow> string" where
  "str_nat n = (if n < 10 then [digit_char n] else str_nat (n div 10) @ [digit_char (n mod 10)])"
  by pat_completeness auto
termination
  by (relation "measure (\<lambda>n. n)") auto

declare str_nat.simps [simp del]

definition str_int :: "int \<Rightarrow> string" where
  "str_int k = (if k < 0 then CHR ''-'' # str_nat (nat (- k)) else str_nat (nat k))"

definition is_digit :: "char \<Rightarrow> bool" where
  "is_digit c = (c \<in> set ''0123456789'')"

definition digit_val :: "char \<Rightarrow> nat" where
  "digit_val c = (of_char c :: nat) - 48"

definition digits_val :: "string \<Rightarrow> nat" where
  "digits_val ds = foldl (\<lambda>a c. 10 * a + digit_val c) 0 ds"

text \<open>
  \<open>int(s)\<close> for a string \<open>s\<close>, a character standing for a code point below 256.
  Blanks around the number are skipped: tab, line feed, vertical tab, form feed,
  carriage return, space, next line (\<open>0x85\<close>) and no-break space (\<open>0xA0\<close>).
  Then comes an optional sign, then decimal digits, with single underscores allowed
  between two digits. Anything else is a \<open>ValueError\<close>.
\<close>

definition is_space :: "char \<Rightarrow> bool" where
  "is_space c = (c \<in> set [CHR 0x09, CHR 0x0A, CHR 0x0B, CHR 0x0C, CHR 0x0D, CHR 0x20,
                            CHR 0x85, CHR 0xA0])"

definition strip :: "string \<Rightarrow> string" where
  "strip s = rev (dropWhile is_space (rev (dropWhile is_space s)))"

text \<open>
  The scan over the digits and underscores, \<open>prev\<close> being the character before:
  it returns the digits, or nothing when two underscores meet, an underscore comes
  last, or a character is neither digit nor underscore.
\<close>

fun scan_digits :: "char \<Rightarrow> string \<Rightarrow> string option" where
  "scan_digits prev [] = (if prev = CHR ''_'' then None else Some [])"
| "scan_digits prev (c # cs) =
     (if c = CHR ''_'' then (if prev = CHR ''_'' then None else scan_digits c cs)
      else if is_digit c then map_option ((#) c) (scan_digits c cs)
      else None)"

text \<open>
  The number after the sign. It may not start with an underscore and must have a
  digit. \<open>lim\<close> is the interpreter's \<open>sys.get_int_max_str_digits()\<close>, 4300 unless
  configured, 0 for no limit (and for interpreters older than the limit): a number of
  more than 640 digits and more than \<open>lim\<close> digits is refused, leading zeros counted.
\<close>

definition py_digits :: "nat \<Rightarrow> string \<Rightarrow> error + int" where
  "py_digits lim body =
     (if body = [] \<or> hd body = CHR ''_'' then Inl ValueError
      else case scan_digits (CHR 0x00) body of
        None \<Rightarrow> Inl ValueError
      | Some ds \<Rightarrow>
          if lim \<noteq> 0 \<and> 640 < length ds \<and> lim < length ds then Inl ValueError
          else Inr (int (digits_val ds)))"

definition py_int :: "nat \<Rightarrow> string \<Rightarrow> error + int" where
  "py_int lim s =
     (let t = strip s in
      if t \<noteq> [] \<and> hd t = CHR ''-'' then bind_err (py_digits lim (tl t)) (\<lambda>n. Inr (- n))
      else if t \<noteq> [] \<and> hd t = CHR ''+'' then py_digits lim (tl t)
      else py_digits lim t)"

subsection \<open>Tasks\<close>

text \<open>The end of a task is a \<open>datetime\<close>; \<open>draw\<close> only formats its hour and minute.\<close>

record datetime =
  dt_hour :: nat
  dt_minute :: nat

definition pad2 :: "nat \<Rightarrow> string" where
  "pad2 n = (if n < 10 then CHR ''0'' # str_nat n else str_nat n)"

definition strftime_HM :: "datetime \<Rightarrow> string" where
  "strftime_HM d = pad2 (dt_hour d) @ '':'' @ pad2 (dt_minute d)"

text \<open>The attributes of a \<open>ScheduledTask\<close> that \<open>draw\<close> reads.\<close>

record task =
  active :: bool
  completed :: bool
  task_end :: "datetime option"
  start_time :: string
  glyph :: string
  task_id :: int
  project :: "string option"
  description :: string

subsection \<open>The environment of \<open>draw\<close>\<close>

record env =
  overdue :: "task \<Rightarrow> bool"                      \<comment> \<open>\<open>task.overdue()\<close>\<close>
  should_be_active :: "task \<Rightarrow> task \<Rightarrow> bool"     \<comment> \<open>\<open>task.should_be_active(next_task)\<close>\<close>
  localtime_hour :: "nat \<Rightarrow> nat"                \<comment> \<open>\<open>time.localtime().tm_hour\<close> at the k-th reading\<close>
  addstr_ok :: "nat \<Rightarrow> int \<Rightarrow> string \<Rightarrow> bool"   \<comment> \<open>whether the window takes the write\<close>
  int_max_str_digits :: nat                     \<comment> \<open>\<open>sys.get_int_max_str_digits()\<close>, 0 for no limit\<close>

datatype attr = Color_pair nat | Color_pair_underline nat

datatype call = Addstr nat int string attr

definition addstr :: "env \<Rightarrow> nat \<Rightarrow> int \<Rightarrow> string \<Rightarrow> attr \<Rightarrow> call list \<Rightarrow> error + call list" where
  "addstr E y x s a scr =
     (if addstr_ok E y x s then Inr (scr @ [Addstr y x s a]) else Inl CursesError)"

text \<open>The arguments of \<open>draw\<close> after the window.\<close>

record params =
  refresh_rate :: int
  hide_empty :: bool
  scheduled :: string
  completed_arg :: bool
  hide_projects :: bool

text \<open>
  What a tick reads from outside: the width of the window, the buckets of
  \<open>schedule.as_dict()\<close> (bucket \<open>i\<close> at index \<open>i\<close>) and the list of
  \<open>schedule.get_column_offsets()\<close>. Two results of \<open>as_dict\<close> are equal when
  they hold tasks with the same attributes in the same buckets and order.
\<close>

record tick_input =
  max_x :: int
  as_dict :: "task list list"
  offsets :: "int list"

subsection \<open>Headers (lines 49 to 58)\<close>

definition headers :: "string list" where
  "headers = ['''', '''', ''ID'', ''Time'', ''Project'', ''Description'']"

definition draw_headers :: "env \<Rightarrow> bool \<Rightarrow> int list \<Rightarrow> error + call list" where
  "draw_headers E hide_projects_flag offs =
     (let color = Color_pair_underline 4 in
      bind_err (getitem offs 1) (\<lambda>o1.
      bind_err (addstr E 0 o1 (headers ! 2) color []) (\<lambda>c1.
      bind_err (getitem offs 2) (\<lambda>o2.
      bind_err (addstr E 0 o2 (headers ! 3) color c1) (\<lambda>c2.
      bind_err (getitem offs 3) (\<lambda>o3.
      bind_err (addstr E 0 o3 (headers ! 4) color c2) (\<lambda>c3.
      if \<not> hide_projects_flag then
        bind_err (getitem offs 4) (\<lambda>o4. addstr E 0 o4 (headers ! 5) color c3)
      else Inr c3)))))))"

subsection \<open>The rows of a tick (lines 60 to 163)\<close>

text \<open>
  A row of the trace records, next to the writes it made, the values the loop
  variables had when the row was drawn.
\<close>

record row =
  row_i :: nat                 \<comment> \<open>the hour of the bucket\<close>
  row_ii :: "nat option"       \<comment> \<open>the position of the task in its bucket; \<open>None\<close> for a filler row\<close>
  row_tasks :: "task list"     \<comment> \<open>the bucket\<close>
  row_line :: nat              \<comment> \<open>\<open>current_line\<close>\<close>
  row_alternate :: bool        \<comment> \<open>\<open>alternate\<close>\<close>
  row_color :: nat             \<comment> \<open>the colour pair of \<open>color\<close>\<close>
  row_hour :: string           \<comment> \<open>the hour label\<close>
  row_hour_calls :: "call list"  \<comment> \<open>the writes of the hour label\<close>
  row_time :: string           \<comment> \<open>\<open>formatted_time\<close>; empty for a filler row\<close>
  row_calls :: "call list"     \<comment> \<open>all writes of the row, in order\<close>

record loop_state =
  past_first_task :: bool
  alternate :: bool
  current_line :: nat
  reads :: nat                 \<comment> \<open>how often the clock has been read\<close>
  rows :: "row list"

text \<open>Lines 128 to 136 and 78 to 84: the hour label, green in the current hour.\<close>

definition draw_hour_label :: "env \<Rightarrow> nat \<Rightarrow> string \<Rightarrow> nat \<Rightarrow> call list \<Rightarrow> error + call list" where
  "draw_hour_label E y hour current_hour scr =
     (if hour \<noteq> [] then
        bind_err (py_int (int_max_str_digits E) hour) (\<lambda>h.
          if h = int current_hour then addstr E y 0 hour (Color_pair 5) scr
          else addstr E y 0 hour (Color_pair 2) scr)
      else Inr scr)"

text \<open>Lines 66 to 87: the filler row of an empty bucket.\<close>

definition draw_empty :: "env \<Rightarrow> params \<Rightarrow> tick_input \<Rightarrow> nat \<Rightarrow> loop_state \<Rightarrow> error + loop_state" where
  "draw_empty E P inp i st =
     (if past_first_task st \<or> \<not> hide_empty P then
        (let color = (if alternate st then 1 else 3);
             y = current_line st in
         bind_err (addstr E y 5 (replicate (nat (max_x inp - 5)) CHR '' '') (Color_pair color) []) (\<lambda>c1.
         let current_hour = localtime_hour E (reads st) in
         bind_err (if i = current_hour then addstr E y 0 (str_nat i) (Color_pair 5) []
                   else addstr E y 0 (str_nat i) (Color_pair 2) []) (\<lambda>c2.
         Inr (st\<lparr>alternate := \<not> alternate st,
                 current_line := current_line st + 1,
                 reads := reads st + 1,
                 rows := rows st @
                   [\<lparr>row_i = i, row_ii = None, row_tasks = [], row_line = y,
                     row_alternate = alternate st, row_color = color,
                     row_hour = str_nat i, row_hour_calls = c2,
                     row_time = [], row_calls = c1 @ c2\<rparr>]\<rparr>))))
      else Inr st)"

text \<open>Lines 98 to 114: the colour of a task row.\<close>

definition task_color :: "env \<Rightarrow> task \<Rightarrow> bool \<Rightarrow> bool \<Rightarrow> nat" where
  "task_color E t is_current_task alt =
     (if active t then 8
      else if is_current_task then 10
      else if overdue E t \<and> \<not> completed t then 11
      else if alt then (if completed t then 7 else 1)
      else (if completed t then 6 else 3))"

text \<open>Lines 122 to 126.\<close>

definition format_time :: "task \<Rightarrow> string" where
  "format_time t =
     (case task_end t of
        None \<Rightarrow> start_time t
      | Some e \<Rightarrow> start_time t @ ''-'' @ strftime_HM e)"

text \<open>Lines 138 to 160: the fill of the line and the columns of the task.\<close>

definition draw_task_details ::
  "env \<Rightarrow> params \<Rightarrow> tick_input \<Rightarrow> nat \<Rightarrow> task \<Rightarrow> attr \<Rightarrow> string \<Rightarrow> call list \<Rightarrow> error + call list" where
  "draw_task_details E P inp y t color formatted_time c0 =
     bind_err (addstr E y 5 (replicate (nat (max_x inp - 5)) CHR '' '') color c0) (\<lambda>c1.
     bind_err (addstr E y 3 (glyph t) (Color_pair 9) c1) (\<lambda>c2.
     bind_err (if task_id t \<noteq> 0 then addstr E y 5 (str_int (task_id t)) color c2
               else Inr c2) (\<lambda>c3.
     bind_err (getitem (offsets inp) 2) (\<lambda>o2.
     bind_err (addstr E y o2 formatted_time color c3) (\<lambda>c4.
     if \<not> hide_projects P then
       (let proj = (case project t of None \<Rightarrow> [] | Some p \<Rightarrow> p) in
        bind_err (getitem (offsets inp) 3) (\<lambda>o3.
        bind_err (addstr E y o3 proj color c4) (\<lambda>c5.
        bind_err (getitem (offsets inp) 4) (\<lambda>o4.
        addstr E y o4 (description t) color c5))))
     else
       bind_err (getitem (offsets inp) 3) (\<lambda>o3.
       addstr E y o3 (description t) color c4))))))"

text \<open>Lines 89 to 163: the body of the loop over the tasks of a bucket.\<close>

definition draw_task ::
  "env \<Rightarrow> params \<Rightarrow> tick_input \<Rightarrow> nat \<Rightarrow> task list \<Rightarrow> nat \<Rightarrow> task \<Rightarrow> loop_state \<Rightarrow> error + loop_state" where
  "draw_task E P inp i tasks ii t st =
     (let is_current_task =
            (case getitem tasks (ii + 1) of
               Inl e \<Rightarrow> False
             | Inr next_task \<Rightarrow> should_be_active E t next_task);
          color = task_color E t is_current_task (alternate st);
          hour = (if ii = 0 then str_nat i else []);
          formatted_time = format_time t;
          current_hour = localtime_hour E (reads st);
          y = current_line st in
      bind_err (draw_hour_label E y hour current_hour []) (\<lambda>c0.
      bind_err (draw_task_details E P inp y t (Color_pair color) formatted_time c0) (\<lambda>c6.
      Inr (st\<lparr>past_first_task := True,
              alternate := \<not> alternate st,
              current_line := current_line st + 1,
              reads := reads st + 1,
              rows := rows st @
                [\<lparr>row_i = i, row_ii = Some ii, row_tasks = tasks, row_line = y,
                  row_alternate = alternate st, row_color = color,
                  row_hour = hour, row_hour_calls = c0,
                  row_time = formatted_time, row_calls = c6\<rparr>]\<rparr>))))"

text \<open>Line 89: \<open>for ii, task in enumerate(tasks)\<close>.\<close>

fun for_tasks ::
  "env \<Rightarrow> params \<Rightarrow> tick_input \<Rightarrow> nat \<Rightarrow> task list \<Rightarrow> (nat \<times> task) list \<Rightarrow> loop_state \<Rightarrow> error + loop_state" where
  "for_tasks E P inp i tasks [] st = Inr st"
| "for_tasks E P inp i tasks ((ii, t) # rest) st =
     bind_err (draw_task E P inp i tasks ii t st) (for_tasks E P inp i tasks rest)"

text \<open>Lines 65 to 163: the body of the loop over the hours.\<close>

definition draw_hour :: "env \<Rightarrow> params \<Rightarrow> tick_input \<Rightarrow> nat \<Rightarrow> loop_state \<Rightarrow> error + loop_state" where
  "draw_hour E P inp i st =
     bind_err (getitem (as_dict inp) i) (\<lambda>tasks.
     bind_err (if tasks = [] then draw_empty E P inp i st else Inr st) (\<lambda>st1.
     for_tasks E P inp i tasks (enumerate 0 tasks) st1))"

text \<open>Line 64: \<open>for i in range(24)\<close>.\<close>

fun for_hours :: "env \<Rightarrow> params \<Rightarrow> tick_input \<Rightarrow> nat list \<Rightarrow> loop_state \<Rightarrow> error + loop_state" where
  "for_hours E P inp [] st = Inr st"
| "for_hours E P inp (i # is) st =
     bind_err (draw_hour E P inp i st) (for_hours E P inp is)"

subsection \<open>One tick and the loop (lines 32 to 166)\<close>

datatype event = Clear | Draw call | Refresh | Sleep int

record tick_result =
  tick_log :: "event list"           \<comment> \<open>what the tick did to the window, then the sleep\<close>
  tick_rows :: "row list"
  tick_previous :: "task list list"  \<comment> \<open>\<open>previous_as_dict\<close> for the next tick\<close>
  tick_reads :: nat

definition init_state :: "nat \<Rightarrow> loop_state" where
  "init_state r = \<lparr>past_first_task = False, alternate = True, current_line = 1, reads = r, rows = []\<rparr>"

text \<open>
  \<open>time.sleep(secs)\<close> for an integer: the length is first turned into a count of
  nanoseconds in 64 bits, which fails beyond 9223372036 seconds either way, and is
  then refused when negative.
\<close>

definition sleep_max :: int where
  "sleep_max = 9223372036"

definition sleep :: "int \<Rightarrow> error + event list" where
  "sleep secs =
     (if secs < - sleep_max \<or> sleep_max < secs then Inl OverflowError
      else if secs < 0 then Inl ValueError
      else Inr [Sleep secs])"

definition tick :: "env \<Rightarrow> params \<Rightarrow> tick_input \<Rightarrow> task list list \<Rightarrow> nat \<Rightarrow> error + tick_result" where
  "tick E P inp previous_as_dict r =
     (let clear = (if as_dict inp \<noteq> previous_as_dict then [Clear] else []) in
      bind_err (draw_headers E (hide_projects P) (offsets inp)) (\<lambda>hdr.
      bind_err (for_hours E P inp [0..<24] (init_state r)) (\<lambda>st.
      bind_err (sleep (refresh_rate P)) (\<lambda>sl.
      Inr \<lparr>tick_log = clear @ map Draw hdr @ map Draw (concat (map row_calls (rows st)))
                        @ [Refresh] @ sl,
           tick_rows = rows st,
           tick_previous = as_dict inp,
           tick_reads = reads st\<rparr>))))"

text \<open>
  Line 34: \<open>while True\<close>. The loop has no exit, so a run is observed over the ticks
  for which inputs are given: one input per tick, one result per tick.
\<close>

fun draw_loop ::
  "env \<Rightarrow> params \<Rightarrow> tick_input list \<Rightarrow> task list list \<Rightarrow> nat \<Rightarrow> error + tick_result list" where
  "draw_loop E P [] previous_as_dict r = Inr []"
| "draw_loop E P (inp # inps) previous_as_dict r =
     bind_err (tick E P inp previous_as_dict r) (\<lambda>res.
     bind_err (draw_loop E P inps (tick_previous res) (tick_reads res)) (\<lambda>ress.
     Inr (res # ress)))"

definition draw :: "env \<Rightarrow> params \<Rightarrow> tick_input list \<Rightarrow> error + tick_result list" where
  "draw E P inps = draw_loop E P inps [] 0"

subsection \<open>The command line (lines 169 to 197)\<close>

text \<open>
  argparse splits the command line into the options it recognises; the module fixes
  what each option stores. An occurrence of an option, with its raw value (any string
  can follow \<open>--refresh=\<close>); a value that \<open>int\<close> refuses ends the program:
\<close>

datatype given = Opt_refresh string | Opt_scheduled string | Opt_all | Opt_completed | Opt_project

record args =
  args_refresh :: int
  args_scheduled :: string
  args_all :: bool
  args_completed :: bool
  args_project :: bool

definition default_args :: args where
  "default_args = \<lparr>args_refresh = 1, args_scheduled = ''today'', args_all = False,
                    args_completed = True, args_project = False\<rparr>"

fun store :: "env \<Rightarrow> given list \<Rightarrow> args \<Rightarrow> error + args" where
  "store E [] a = Inr a"
| "store E (Opt_refresh s # gs) a =
     (case py_int (int_max_str_digits E) s of
        Inl e \<Rightarrow> Inl SystemExit
      | Inr n \<Rightarrow> store E gs (a\<lparr>args_refresh := n\<rparr>))"
| "store E (Opt_scheduled s # gs) a = store E gs (a\<lparr>args_scheduled := s\<rparr>)"
| "store E (Opt_all # gs) a = store E gs (a\<lparr>args_all := True\<rparr>)"
| "store E (Opt_completed # gs) a = store E gs (a\<lparr>args_completed := False\<rparr>)"
| "store E (Opt_project # gs) a = store E gs (a\<lparr>args_project := True\<rparr>)"

definition parse_args :: "env \<Rightarrow> given list \<Rightarrow> error + args" where
  "parse_args E gs = store E gs default_args"

definition main_params :: "args \<Rightarrow> params" where
  "main_params a = \<lparr>refresh_rate = args_refresh a, hide_empty = (\<not> args_all a),
                     scheduled = args_scheduled a, completed_arg = args_completed a,
                     hide_projects = args_project a\<rparr>"

definition main :: "env \<Rightarrow> given list \<Rightarrow> tick_input list \<Rightarrow> error + tick_result list" where
  "main E gs inps = bind_err (parse_args E gs) (\<lambda>a. draw E (main_params a) inps)"

subsection \<open>An example day\<close>

text \<open>
  One task at nine o'clock and two in the hour of two o'clock, the second of them
  marked active and already overdue; the clock passes from nine to ten between the
  first and the second row of the tick.
\<close>

definition report_task :: task where
  "report_task = \<lparr>active = False, completed = False, task_end = None,
     start_time = ''09:00'', glyph = ''o'', task_id = 5, project = Some ''Docs'',
     description = ''Write report''\<rparr>"

definition call_task :: task where
  "call_task = \<lparr>active = False, completed = False,
     task_end = Some \<lparr>dt_hour = 14, dt_minute = 5\<rparr>,
     start_time = ''14:00'', glyph = ''o'', task_id = 6, project = None,
     description = ''Call''\<rparr>"

definition review_task :: task where
  "review_task = \<lparr>active = True, completed = False, task_end = None,
     start_time = ''14:30'', glyph = ''o'', task_id = 0, project = Some ''Docs'',
     description = ''Review''\<rparr>"

definition example_env :: env where
  "example_env = \<lparr>overdue = (\<lambda>t. True),
     should_be_active = (\<lambda>t next_task. True),
     localtime_hour = (\<lambda>k. if k = 0 then 9 else 10),
     addstr_ok = (\<lambda>y x s. True),
     int_max_str_digits = 4300\<rparr>"

definition example_params :: params where
  "example_params = \<lparr>refresh_rate = 1, hide_empty = True, scheduled = ''today'',
     completed_arg = True, hide_projects = False\<rparr>"

definition example_input :: tick_input where
  "example_input = \<lparr>max_x = 40,
     as_dict = replicate 9 [] @ [[report_task]] @ replicate 4 []
               @ [[call_task, review_task]] @ replicate 9 [],
     offsets = [0, 5, 8, 20, 28]\<rparr>"

text \<open>A day without tasks.\<close>

definition empty_input :: tick_input where
  "empty_input = \<lparr>max_x = 40, as_dict = replicate 24 [], offsets = [0, 5, 8, 20, 28]\<rparr>"

section \<open>Verification\<close>

subsection \<open>Results of the error monad\<close>

lemma bind_err_Inr: "(bind_err m f = Inr y) = (\<exists>x. m = Inr x \<and> f x = Inr y)"
  by (cases m) (simp_all add: bind_err_def)

lemma addstr_Inr: "(addstr E y x s a scr = Inr c) = (addstr_ok E y x s \<and> c = scr @ [Addstr y x s a])"
  by (auto simp: addstr_def)

lemma getitem_Inr: "(getitem xs k = Inr x) = (k < length xs \<and> x = xs ! k)"
  by (auto simp: getitem_def)

lemma next_task_lookup:
  "(case getitem tasks (ii + 1) of Inl e \<Rightarrow> False | Inr next_task \<Rightarrow> f next_task)
     = (ii + 1 < length tasks \<and> f (tasks ! (ii + 1)))"
  by (simp add: getitem_def)

subsection \<open>\<open>int\<close> reads back what \<open>str\<close> wrote\<close>

lemma digit_cases: "d < 10 \<Longrightarrow> d = 0 \<or> d = 1 \<or> d = 2 \<or> d = 3 \<or> d = 4 \<or> d = 5 \<or> d = 6 \<or> d = 7 \<or> d = 8 \<or> d = (9::nat)"
  by arith

lemma digit_char_props:
  assumes "d < 10"
  shows "is_digit (digit_char d)" and "digit_val (digit_char d) = d"
    and "digit_char d \<noteq> CHR ''-''" and "digit_char d \<noteq> CHR ''+''"
  using digit_cases [OF assms]
  by (auto simp: digit_char_def is_digit_def digit_val_def)

lemma digits_val_snoc: "digits_val (ds @ [c]) = 10 * digits_val ds + digit_val c"
  by (simp add: digits_val_def)

lemma str_nat_small: "n < 10 \<Longrightarrow> str_nat n = [digit_char n]"
  by (subst str_nat.simps) simp

lemma str_nat_big: "\<not> n < 10 \<Longrightarrow> str_nat n = str_nat (n div 10) @ [digit_char (n mod 10)]"
  by (subst str_nat.simps) simp

lemma str_nat_digits:
  "str_nat n \<noteq> [] \<and> list_all is_digit (str_nat n) \<and> digits_val (str_nat n) = n"
proof (induction n rule: str_nat.induct)
  case (1 n)
  show ?case
  proof (cases "n < 10")
    case True
    then show ?thesis
      by (simp add: str_nat_small digit_char_props digits_val_def)
  next
    case False
    with 1 have ih: "list_all is_digit (str_nat (n div 10))" "digits_val (str_nat (n div 10)) = n div 10"
      by simp_all
    have m: "n mod 10 < 10" by simp
    from False ih m show ?thesis
      by (simp add: str_nat_big digit_char_props digits_val_snoc)
  qed
qed

lemma hd_str_nat_digit: "is_digit (hd (str_nat n))"
  using str_nat_digits [of n] by (cases "str_nat n") simp_all

lemma last_str_nat_digit: "is_digit (last (str_nat n))"
  using str_nat_digits [of n] by (cases "str_nat n" rule: rev_cases) simp_all

lemma is_digit_plain:
  assumes "is_digit c"
  shows "c \<noteq> CHR ''_''" and "c \<noteq> CHR ''-''" and "c \<noteq> CHR ''+''" and "\<not> is_space c"
  using assms by (auto simp: is_digit_def is_space_def)

lemma scan_digits_digits:
  "list_all is_digit ds \<Longrightarrow> (ds = [] \<longrightarrow> prev \<noteq> CHR ''_'') \<Longrightarrow> scan_digits prev ds = Some ds"
proof (induction ds arbitrary: prev)
  case Nil
  then show ?case by simp
next
  case (Cons c cs)
  then have c: "is_digit c" and cs: "list_all is_digit cs" by simp_all
  from Cons.IH [OF cs, of c] is_digit_plain(1) [OF c] have "scan_digits c cs = Some cs" by simp
  with c is_digit_plain(1) [OF c] show ?case by simp
qed

lemma py_digits_digits:
  assumes "list_all is_digit ds" and "ds \<noteq> []" and "length ds \<le> 640"
  shows "py_digits lim ds = Inr (int (digits_val ds))"
proof -
  from assms(1,2) have "is_digit (hd ds)" by (cases ds) simp_all
  then have "hd ds \<noteq> CHR ''_''" by (rule is_digit_plain)
  moreover have "scan_digits (CHR 0x00) ds = Some ds"
    using assms(1,2) by (simp add: scan_digits_digits)
  ultimately show ?thesis using assms(2,3) by (simp add: py_digits_def)
qed

lemma strip_plain:
  assumes "s \<noteq> []" and "\<not> is_space (hd s)" and "\<not> is_space (last s)"
  shows "strip s = s"
proof -
  from assms(1,2) have a: "dropWhile is_space s = s" by (cases s) simp_all
  from assms(1,3) have "dropWhile is_space (rev s) = rev s"
    by (cases s rule: rev_cases) simp_all
  with a show ?thesis by (simp add: strip_def)
qed

lemma length_str_nat: "n < 10 ^ k \<Longrightarrow> 0 < k \<Longrightarrow> length (str_nat n) \<le> k"
proof (induction k arbitrary: n)
  case 0
  then show ?case by simp
next
  case (Suc k)
  show ?case
  proof (cases "n < 10")
    case True
    then show ?thesis by (simp add: str_nat_small)
  next
    case False
    with Suc.prems have k: "0 < k" by (cases k) simp_all
    from Suc.prems have "n div 10 < 10 ^ k" by (simp add: less_mult_imp_div_less mult.commute)
    from Suc.IH [OF this k] False show ?thesis by (simp add: str_nat_big)
  qed
qed

lemma py_int_str_nat:
  assumes "length (str_nat n) \<le> 640"
  shows "py_int lim (str_nat n) = Inr (int n)"
proof -
  note d = str_nat_digits [of n]
  have s: "strip (str_nat n) = str_nat n"
    using d is_digit_plain(4) [OF hd_str_nat_digit] is_digit_plain(4) [OF last_str_nat_digit]
    by (simp add: strip_plain)
  have h: "hd (str_nat n) \<noteq> CHR ''-''" "hd (str_nat n) \<noteq> CHR ''+''"
    using is_digit_plain(2,3) [OF hd_str_nat_digit] by simp_all
  from d assms have "py_digits lim (str_nat n) = Inr (int n)"
    by (simp add: py_digits_digits)
  with s h show ?thesis by (simp add: py_int_def)
qed

lemma py_int_hour: "i < 100 \<Longrightarrow> py_int lim (str_nat i) = Inr (int i)"
proof -
  assume "i < 100"
  then have "i < 10 ^ 2" by simp
  then have "length (str_nat i) \<le> 2" by (rule length_str_nat) simp
  then show ?thesis by (simp add: py_int_str_nat)
qed

lemma py_int_str_int:
  assumes "length (str_int n) \<le> 640"
  shows "py_int lim (str_int n) = Inr n"
proof (cases "n < 0")
  case False
  with assms show ?thesis by (simp add: str_int_def py_int_str_nat)
next
  case True
  let ?m = "nat (- n)"
  from True assms have l: "length (str_nat ?m) \<le> 640" by (simp add: str_int_def)
  note d = str_nat_digits [of ?m]
  have s: "strip (CHR ''-'' # str_nat ?m) = CHR ''-'' # str_nat ?m"
  proof (rule strip_plain)
    show "\<not> is_space (last (CHR ''-'' # str_nat ?m))"
      using d is_digit_plain(4) [OF last_str_nat_digit, of ?m] by simp
  qed (simp_all add: is_space_def)
  from d l have "py_digits lim (str_nat ?m) = Inr (int ?m)"
    by (simp add: py_digits_digits)
  with True s show ?thesis by (simp add: str_int_def py_int_def bind_err_def)
qed

subsection \<open>What one row does to the loop state\<close>

lemma str_nat_not_Nil: "str_nat n \<noteq> []"
  using str_nat_digits [of n] by simp

lemma draw_hour_label_Nil: "draw_hour_label E y [] ch scr = Inr scr"
  by (simp add: draw_hour_label_def)

lemma draw_hour_label_str_nat:
  "i < 100 \<Longrightarrow> draw_hour_label E y (str_nat i) ch [] = Inr c0 \<Longrightarrow>
     c0 = [Addstr y 0 (str_nat i) (Color_pair (if i = ch then 5 else 2))]"
  by (auto simp: draw_hour_label_def str_nat_not_Nil py_int_hour bind_err_def addstr_Inr
      split: if_splits)

lemma draw_empty_skip:
  "\<not> (past_first_task st \<or> \<not> hide_empty P) \<Longrightarrow> draw_empty E P inp i st = Inr st"
  by (simp add: draw_empty_def)

lemma draw_empty_row:
  assumes "draw_empty E P inp i st = Inr st'" and "past_first_task st \<or> \<not> hide_empty P"
  shows "st' = st\<lparr>alternate := \<not> alternate st,
                  current_line := current_line st + 1,
                  reads := reads st + 1,
                  rows := rows st @
                    [\<lparr>row_i = i, row_ii = None, row_tasks = [], row_line = current_line st,
                      row_alternate = alternate st,
                      row_color = (if alternate st then 1 else 3),
                      row_hour = str_nat i,
                      row_hour_calls = [Addstr (current_line st) 0 (str_nat i)
                         (Color_pair (if i = localtime_hour E (reads st) then 5 else 2))],
                      row_time = [],
                      row_calls =
                        [Addstr (current_line st) 5 (replicate (nat (max_x inp - 5)) CHR '' '')
                           (Color_pair (if alternate st then 1 else 3)),
                         Addstr (current_line st) 0 (str_nat i)
                           (Color_pair (if i = localtime_hour E (reads st) then 5 else 2))]\<rparr>]\<rparr>"
  using assms
  by (auto simp: draw_empty_def Let_def bind_err_Inr addstr_Inr split: if_splits)

lemma draw_task_row:
  assumes "draw_task E P inp i tasks ii t st = Inr st'"
  obtains c0 c6 where
    "draw_hour_label E (current_line st) (if ii = 0 then str_nat i else [])
       (localtime_hour E (reads st)) [] = Inr c0"
    and "draw_task_details E P inp (current_line st) t
         (Color_pair (task_color E t
            (ii + 1 < length tasks \<and> should_be_active E t (tasks ! (ii + 1))) (alternate st)))
         (format_time t) c0 = Inr c6"
    and "st' = st\<lparr>past_first_task := True,
              alternate := \<not> alternate st,
              current_line := current_line st + 1,
              reads := reads st + 1,
              rows := rows st @
                [\<lparr>row_i = i, row_ii = Some ii, row_tasks = tasks, row_line = current_line st,
                  row_alternate = alternate st,
                  row_color = task_color E t
                    (ii + 1 < length tasks \<and> should_be_active E t (tasks ! (ii + 1))) (alternate st),
                  row_hour = (if ii = 0 then str_nat i else []), row_hour_calls = c0,
                  row_time = format_time t, row_calls = c6\<rparr>]\<rparr>"
  using assms unfolding draw_task_def Let_def bind_err_Inr next_task_lookup by blast

lemma draw_task_hour_calls:
  assumes "draw_hour_label E y (if ii = 0 then str_nat i else []) ch [] = Inr c0"
    and "i < 100"
  shows "c0 = (if ii = 0 then [Addstr y 0 (str_nat i) (Color_pair (if i = ch then 5 else 2))] else [])"
proof (cases "ii = 0")
  case True
  with assms show ?thesis by (simp add: draw_hour_label_str_nat)
next
  case False
  with assms show ?thesis by (simp add: draw_hour_label_Nil)
qed

subsection \<open>Invariants of the two loops\<close>

lemma for_tasks_invariant:
  assumes "for_tasks E P inp i tasks rest st = Inr st'"
    and "I st"
    and "\<And>ii t s s'. (ii, t) \<in> set rest \<Longrightarrow> I s \<Longrightarrow> draw_task E P inp i tasks ii t s = Inr s' \<Longrightarrow> I s'"
  shows "I st'"
  using assms
proof (induction rest arbitrary: st)
  case Nil
  then show ?case by simp
next
  case (Cons p rest)
  obtain ii t where p: "p = (ii, t)" by (cases p)
  from Cons.prems(1) obtain s1 where
    s1: "draw_task E P inp i tasks ii t st = Inr s1" and r: "for_tasks E P inp i tasks rest s1 = Inr st'"
    by (auto simp: p bind_err_Inr)
  have "I s1" using Cons.prems(3) [of ii t st s1] Cons.prems(2) s1 by (simp add: p)
  show ?case
  proof (rule Cons.IH [OF r \<open>I s1\<close>])
    fix jj u s s'
    assume "(jj, u) \<in> set rest" "I s" "draw_task E P inp i tasks jj u s = Inr s'"
    then show "I s'" using Cons.prems(3) [of jj u s s'] by simp
  qed
qed

lemma draw_hour_invariant:
  assumes "draw_hour E P inp i st = Inr st'"
    and "I st"
    and "\<And>s s'. getitem (as_dict inp) i = Inr [] \<Longrightarrow> I s \<Longrightarrow> draw_empty E P inp i s = Inr s' \<Longrightarrow> I s'"
    and "\<And>tasks ii s s'. getitem (as_dict inp) i = Inr tasks \<Longrightarrow> ii < length tasks \<Longrightarrow> I s \<Longrightarrow>
           draw_task E P inp i tasks ii (tasks ! ii) s = Inr s' \<Longrightarrow> I s'"
  shows "I st'"
proof -
  from assms(1) obtain tasks s1 where
    g: "getitem (as_dict inp) i = Inr tasks"
    and e: "(if tasks = [] then draw_empty E P inp i st else Inr st) = Inr s1"
    and f: "for_tasks E P inp i tasks (enumerate 0 tasks) s1 = Inr st'"
    unfolding draw_hour_def bind_err_Inr by blast
  have "I s1"
  proof (cases "tasks = []")
    case True
    with g e assms(2,3) show ?thesis by simp
  next
    case False
    with e assms(2) show ?thesis by simp
  qed
  with f show ?thesis
  proof (rule for_tasks_invariant)
    fix ii t s s'
    assume "(ii, t) \<in> set (enumerate 0 tasks)" "I s" "draw_task E P inp i tasks ii t s = Inr s'"
    then show "I s'" using assms(4) [OF g, of ii s s'] by (simp add: in_set_enumerate_eq)
  qed
qed

lemma for_hours_invariant:
  assumes "for_hours E P inp hours st = Inr st'"
    and "I st"
    and "\<And>i s s'. i \<in> set hours \<Longrightarrow> getitem (as_dict inp) i = Inr [] \<Longrightarrow> I s \<Longrightarrow>
           draw_empty E P inp i s = Inr s' \<Longrightarrow> I s'"
    and "\<And>i tasks ii s s'. i \<in> set hours \<Longrightarrow> getitem (as_dict inp) i = Inr tasks \<Longrightarrow>
           ii < length tasks \<Longrightarrow> I s \<Longrightarrow>
           draw_task E P inp i tasks ii (tasks ! ii) s = Inr s' \<Longrightarrow> I s'"
  shows "I st'"
  using assms
proof (induction hours arbitrary: st)
  case Nil
  then show ?case by simp
next
  case (Cons i hours)
  from Cons.prems(1) obtain s1 where
    s1: "draw_hour E P inp i st = Inr s1" and r: "for_hours E P inp hours s1 = Inr st'"
    by (auto simp: bind_err_Inr)
  have "I s1"
    using s1 Cons.prems(2)
  proof (rule draw_hour_invariant)
    fix s s'
    assume "getitem (as_dict inp) i = Inr []" "I s" "draw_empty E P inp i s = Inr s'"
    then show "I s'" using Cons.prems(3) [of i s s'] by simp
  next
    fix tasks ii s s'
    assume "getitem (as_dict inp) i = Inr tasks" "ii < length tasks" "I s"
      "draw_task E P inp i tasks ii (tasks ! ii) s = Inr s'"
    then show "I s'" using Cons.prems(4) [of i tasks ii s s'] by simp
  qed
  show ?case
  proof (rule Cons.IH [OF r \<open>I s1\<close>])
    fix j s s'
    assume "j \<in> set hours" "getitem (as_dict inp) j = Inr []" "I s" "draw_empty E P inp j s = Inr s'"
    then show "I s'" using Cons.prems(3) [of j s s'] by simp
  next
    fix j tasks ii s s'
    assume "j \<in> set hours" "getitem (as_dict inp) j = Inr tasks" "ii < length tasks" "I s"
      "draw_task E P inp j tasks ii (tasks ! ii) s = Inr s'"
    then show "I s'" using Cons.prems(4) [of j tasks ii s s'] by simp
  qed
qed

subsection \<open>The rows of a tick\<close>

lemma rows_facts:
  assumes run: "for_hours E P inp hours st = Inr st'" and start: "rows st = []"
    and rw: "rw \<in> set (rows st')"
  shows "row_i rw \<in> set hours"
    and "getitem (as_dict inp) (row_i rw) = Inr (row_tasks rw)"
    and "row_ii rw = None \<Longrightarrow>
           row_tasks rw = [] \<and> row_color rw = (if row_alternate rw then 1 else 3)
           \<and> row_hour rw = str_nat (row_i rw)"
    and "row_ii rw = Some ii \<Longrightarrow>
           ii < length (row_tasks rw)
           \<and> row_color rw = task_color E (row_tasks rw ! ii)
                (ii + 1 < length (row_tasks rw)
                 \<and> should_be_active E (row_tasks rw ! ii) (row_tasks rw ! (ii + 1)))
                (row_alternate rw)
           \<and> row_hour rw = (if ii = 0 then str_nat (row_i rw) else [])
           \<and> row_time rw = format_time (row_tasks rw ! ii)
           \<and> draw_task_details E P inp (row_line rw) (row_tasks rw ! ii)
                (Color_pair (row_color rw)) (row_time rw) (row_hour_calls rw) = Inr (row_calls rw)"
proof -
  define Q where "Q = (\<lambda>rw::row. row_i rw \<in> set hours
      \<and> getitem (as_dict inp) (row_i rw) = Inr (row_tasks rw)
      \<and> (row_ii rw = None \<longrightarrow>
           row_tasks rw = [] \<and> row_color rw = (if row_alternate rw then 1 else 3)
           \<and> row_hour rw = str_nat (row_i rw))
      \<and> (\<forall>ii. row_ii rw = Some ii \<longrightarrow>
           ii < length (row_tasks rw)
           \<and> row_color rw = task_color E (row_tasks rw ! ii)
                (ii + 1 < length (row_tasks rw)
                 \<and> should_be_active E (row_tasks rw ! ii) (row_tasks rw ! (ii + 1)))
                (row_alternate rw)
           \<and> row_hour rw = (if ii = 0 then str_nat (row_i rw) else [])
           \<and> row_time rw = format_time (row_tasks rw ! ii)
           \<and> draw_task_details E P inp (row_line rw) (row_tasks rw ! ii)
                (Color_pair (row_color rw)) (row_time rw) (row_hour_calls rw) = Inr (row_calls rw)))"
  let ?I = "\<lambda>s. \<forall>rw \<in> set (rows s). Q rw"
  have "?I st'"
  proof (rule for_hours_invariant [OF run, where I = ?I])
    show "?I st" by (simp add: start)
  next
    fix i s s'
    assume i: "i \<in> set hours" and g: "getitem (as_dict inp) i = Inr []" and I: "?I s"
      and d: "draw_empty E P inp i s = Inr s'"
    show "?I s'"
    proof (cases "past_first_task s \<or> \<not> hide_empty P")
      case True
      note s' = draw_empty_row [OF d True]
      have "Q (last (rows s'))"
        unfolding s' Q_def using i g by simp
      then show ?thesis
        using I unfolding s' by simp
    next
      case False
      then have "s' = s" using d by (simp add: draw_empty_skip)
      with I show ?thesis by simp
    qed
  next
    fix i tasks ii s s'
    assume i: "i \<in> set hours" and g: "getitem (as_dict inp) i = Inr tasks"
      and ii: "ii < length tasks" and I: "?I s"
      and d: "draw_task E P inp i tasks ii (tasks ! ii) s = Inr s'"
    from d obtain c0 c6 where
      c6: "draw_task_details E P inp (current_line s) (tasks ! ii)
         (Color_pair (task_color E (tasks ! ii)
            (ii + 1 < length tasks \<and> should_be_active E (tasks ! ii) (tasks ! (ii + 1))) (alternate s)))
         (format_time (tasks ! ii)) c0 = Inr c6"
      and s': "s' = s\<lparr>past_first_task := True,
              alternate := \<not> alternate s,
              current_line := current_line s + 1,
              reads := reads s + 1,
              rows := rows s @
                [\<lparr>row_i = i, row_ii = Some ii, row_tasks = tasks, row_line = current_line s,
                  row_alternate = alternate s,
                  row_color = task_color E (tasks ! ii)
                    (ii + 1 < length tasks \<and> should_be_active E (tasks ! ii) (tasks ! (ii + 1))) (alternate s),
                  row_hour = (if ii = 0 then str_nat i else []), row_hour_calls = c0,
                  row_time = format_time (tasks ! ii), row_calls = c6\<rparr>]\<rparr>"
      by (rule draw_task_row)
    have "Q (last (rows s'))"
      unfolding s' Q_def using i g ii c6 by (simp add: getitem_Inr)
    then show "?I s'"
      using I unfolding s' by simp
  qed
  with rw have "Q rw" by blast
  note Q = this [unfolded Q_def]
  from Q show "row_i rw \<in> set hours" by blast
  from Q show "getitem (as_dict inp) (row_i rw) = Inr (row_tasks rw)" by blast
  from Q show "row_ii rw = None \<Longrightarrow>
           row_tasks rw = [] \<and> row_color rw = (if row_alternate rw then 1 else 3)
           \<and> row_hour rw = str_nat (row_i rw)" by blast
  from Q show "row_ii rw = Some ii \<Longrightarrow>
           ii < length (row_tasks rw)
           \<and> row_color rw = task_color E (row_tasks rw ! ii)
                (ii + 1 < length (row_tasks rw)
                 \<and> should_be_active E (row_tasks rw ! ii) (row_tasks rw ! (ii + 1)))
                (row_alternate rw)
           \<and> row_hour rw = (if ii = 0 then str_nat (row_i rw) else [])
           \<and> row_time rw = format_time (row_tasks rw ! ii)
           \<and> draw_task_details E P inp (row_line rw) (row_tasks rw ! ii)
                (Color_pair (row_color rw)) (row_time rw) (row_hour_calls rw) = Inr (row_calls rw)"
    by blast
qed

lemma rows_indexed:
  assumes run: "for_hours E P inp hours (init_state r0) = Inr st'"
    and small: "\<forall>i \<in> set hours. i < 100"
  shows "alternate st' = even (length (rows st'))"
    and "current_line st' = length (rows st') + 1"
    and "reads st' = r0 + length (rows st')"
    and "k < length (rows st') \<Longrightarrow>
           row_line (rows st' ! k) = k + 1 \<and> row_alternate (rows st' ! k) = even k
           \<and> row_hour_calls (rows st' ! k) =
               (if row_hour (rows st' ! k) = [] then []
                else [Addstr (k + 1) 0 (row_hour (rows st' ! k))
                        (Color_pair (if row_i (rows st' ! k) = localtime_hour E (r0 + k) then 5 else 2))])"
proof -
  define R where "R = (\<lambda>k (rw::row). row_line rw = k + 1 \<and> row_alternate rw = even k
           \<and> row_hour_calls rw =
               (if row_hour rw = [] then []
                else [Addstr (k + 1) 0 (row_hour rw)
                        (Color_pair (if row_i rw = localtime_hour E (r0 + k) then 5 else 2))]))"
  let ?I = "\<lambda>s. alternate s = even (length (rows s))
      \<and> current_line s = length (rows s) + 1
      \<and> reads s = r0 + length (rows s)
      \<and> (\<forall>k < length (rows s). R k (rows s ! k))"
  have "?I st'"
  proof (rule for_hours_invariant [OF run, where I = ?I])
    show "?I (init_state r0)" by (simp add: init_state_def)
  next
    fix i s s'
    assume I: "?I s" and d: "draw_empty E P inp i s = Inr s'"
    show "?I s'"
    proof (cases "past_first_task s \<or> \<not> hide_empty P")
      case True
      note s' = draw_empty_row [OF d True]
      have "R (length (rows s)) (last (rows s'))"
        unfolding s' R_def using I by (simp add: str_nat_not_Nil)
      then show ?thesis
        using I unfolding s' by (auto simp: nth_append less_Suc_eq)
    next
      case False
      then have "s' = s" using d by (simp add: draw_empty_skip)
      with I show ?thesis by simp
    qed
  next
    fix i tasks ii s s'
    assume i: "i \<in> set hours"
      and I: "?I s" and d: "draw_task E P inp i tasks ii (tasks ! ii) s = Inr s'"
    from i small have i100: "i < 100" by blast
    from d obtain c0 c6 where
      c0: "draw_hour_label E (current_line s) (if ii = 0 then str_nat i else [])
             (localtime_hour E (reads s)) [] = Inr c0"
      and s': "s' = s\<lparr>past_first_task := True,
              alternate := \<not> alternate s,
              current_line := current_line s + 1,
              reads := reads s + 1,
              rows := rows s @
                [\<lparr>row_i = i, row_ii = Some ii, row_tasks = tasks, row_line = current_line s,
                  row_alternate = alternate s,
                  row_color = task_color E (tasks ! ii)
                    (ii + 1 < length tasks \<and> should_be_active E (tasks ! ii) (tasks ! (ii + 1))) (alternate s),
                  row_hour = (if ii = 0 then str_nat i else []), row_hour_calls = c0,
                  row_time = format_time (tasks ! ii), row_calls = c6\<rparr>]\<rparr>"
      by (rule draw_task_row)
    note c0' = draw_task_hour_calls [OF c0 i100]
    have "R (length (rows s)) (last (rows s'))"
      unfolding s' R_def using I c0' by (simp add: str_nat_not_Nil)
    then show "?I s'"
      using I unfolding s' by (auto simp: nth_append less_Suc_eq)
  qed
  then have "alternate st' = even (length (rows st'))
      \<and> current_line st' = length (rows st') + 1
      \<and> reads st' = r0 + length (rows st')
      \<and> (\<forall>k < length (rows st'). R k (rows st' ! k))" .
  note fin = this [unfolded R_def]
  from fin show "alternate st' = even (length (rows st'))"
    and "current_line st' = length (rows st') + 1"
    and "reads st' = r0 + length (rows st')"
    and "k < length (rows st') \<Longrightarrow>
           row_line (rows st' ! k) = k + 1 \<and> row_alternate (rows st' ! k) = even k
           \<and> row_hour_calls (rows st' ! k) =
               (if row_hour (rows st' ! k) = [] then []
                else [Addstr (k + 1) 0 (row_hour (rows st' ! k))
                        (Color_pair (if row_i (rows st' ! k) = localtime_hour E (r0 + k) then 5 else 2))])"
    by blast+
qed

lemma hours_small: "\<forall>i \<in> set [0..<24]. i < 100"
  by simp

lemma sleep_Inr:
  "(sleep secs = Inr sl) = (0 \<le> secs \<and> secs \<le> sleep_max \<and> sl = [Sleep secs])"
  by (auto simp: sleep_def sleep_max_def)

lemma tick_Inr:
  assumes "tick E P inp prev r = Inr res"
  obtains hdr st where
    "draw_headers E (hide_projects P) (offsets inp) = Inr hdr"
    and "for_hours E P inp [0..<24] (init_state r) = Inr st"
    and "0 \<le> refresh_rate P" and "refresh_rate P \<le> sleep_max"
    and "res = \<lparr>tick_log = (if as_dict inp \<noteq> prev then [Clear] else []) @ map Draw hdr
                     @ map Draw (concat (map row_calls (rows st))) @ [Refresh] @ [Sleep (refresh_rate P)],
               tick_rows = rows st, tick_previous = as_dict inp, tick_reads = reads st\<rparr>"
  using assms unfolding tick_def Let_def bind_err_Inr sleep_Inr by blast

lemma tick_rows_for_hours:
  assumes "tick E P inp prev r = Inr res"
  shows "\<exists>st. for_hours E P inp [0..<24] (init_state r) = Inr st \<and> tick_rows res = rows st
            \<and> tick_reads res = reads st"
  using assms by (elim tick_Inr) simp

subsection \<open>The example day, evaluated\<close>

lemma example_tick_runs:
  "tick example_env example_params example_input [] 0
     = Inr (projr (tick example_env example_params example_input [] 0))"
  by code_simp

lemma example_tick_rows:
  "length (tick_rows (projr (tick example_env example_params example_input [] 0))) = 16"
  by code_simp

subsection \<open>The writes of a task row\<close>

lemma pad2_two_digits: "n < 100 \<Longrightarrow> pad2 n = [digit_char (n div 10), digit_char (n mod 10)]"
proof (cases "n < 10")
  case True
  then show ?thesis by (simp add: pad2_def str_nat_small digit_char_def)
next
  case False
  assume "n < 100"
  then have "n div 10 < 10" by simp
  with False show ?thesis by (simp add: pad2_def str_nat_big str_nat_small)
qed

lemma draw_task_details_time:
  assumes "draw_task_details E P inp y t color ft c0 = Inr c"
  shows "2 < length (offsets inp) \<and> Addstr y (offsets inp ! 2) ft color \<in> set c"
  using assms
  by (auto simp: draw_task_details_def Let_def bind_err_Inr addstr_Inr getitem_Inr
      split: if_splits)

lemma draw_task_details_fill:
  assumes "draw_task_details E P inp y t color ft c0 = Inr c"
  shows "\<exists>rest. c = c0 @ Addstr y 5 (replicate (nat (max_x inp - 5)) CHR '' '') color # rest"
  using assms
  by (auto simp: draw_task_details_def Let_def bind_err_Inr addstr_Inr getitem_Inr
      split: if_splits)

subsection \<open>The rows of a tick: colour, alternation, hour label, time\<close>

text \<open>
  Claim C1. Every task row of a tick gets its colour by a fixed precedence, the first
  match winning: pair 8 (ACTIVE) when the task is active, whatever its other flags;
  otherwise pair 10 (CURRENT) when the bucket has a next task and \<open>should_be_active\<close>
  holds of it; otherwise pair 11 (OVERDUE) when the task is overdue and not completed;
  otherwise pair 7 or 6 (COMPLETED) or pair 1 or 3 (NORMAL), by the completed flag and
  the alternation flag. The row's task is the task at its position in the bucket of its
  hour.
\<close>
theorem task_row_state_precedence:
  assumes "tick E P inp prev r = Inr res" and "rw \<in> set (tick_rows res)"
    and "row_ii rw = Some ii"
  shows "ii < length (row_tasks rw) \<and> as_dict inp ! row_i rw = row_tasks rw \<and>
     row_color rw =
       (let tasks = row_tasks rw; t = tasks ! ii in
        if active t then 8
        else if ii + 1 < length tasks \<and> should_be_active E t (tasks ! (ii + 1)) then 10
        else if overdue E t \<and> \<not> completed t then 11
        else if completed t then (if row_alternate rw then 7 else 6)
        else (if row_alternate rw then 1 else 3))"
proof -
  from assms(1) obtain st where
    run: "for_hours E P inp [0..<24] (init_state r) = Inr st" and rs: "tick_rows res = rows st"
    using tick_rows_for_hours by blast
  have start: "rows (init_state r) = []" by (simp add: init_state_def)
  from assms(2) have mem: "rw \<in> set (rows st)" by (simp add: rs)
  note f = rows_facts(4) [OF run start mem assms(3)]
  note g = rows_facts(2) [OF run start mem]
  from f g show ?thesis
    by (simp add: task_color_def Let_def getitem_Inr)
qed

text \<open>On the example day the review task is active and overdue; its row is drawn in pair 8.\<close>

theorem task_row_state_precedence_witness:
  "\<exists>res rw. tick example_env example_params example_input [] 0 = Inr res
      \<and> rw \<in> set (tick_rows res) \<and> row_ii rw = Some 1
      \<and> active (row_tasks rw ! 1) \<and> overdue example_env (row_tasks rw ! 1)
      \<and> row_color rw = 8"
proof -
  let ?res = "projr (tick example_env example_params example_input [] 0)"
  let ?rw = "tick_rows ?res ! 6"
  have 1: "tick example_env example_params example_input [] 0 = Inr ?res"
    by (rule example_tick_runs)
  have 2: "?rw \<in> set (tick_rows ?res)" by (simp add: example_tick_rows)
  have 3: "row_ii ?rw = Some 1" by code_simp
  have 4: "active (row_tasks ?rw ! 1)" by code_simp
  have 5: "overdue example_env (row_tasks ?rw ! 1)" by (simp add: example_env_def)
  from task_row_state_precedence [OF 1 2 3] 4 have "row_color ?rw = 8"
    by (simp add: Let_def)
  with 1 2 3 4 5 show ?thesis by blast
qed

text \<open>
  Claim C6. The alternation flag flips once per emitted row and at no other moment:
  the k-th row of a tick (task row or filler row, counted from 0) is drawn with the
  flag equal to its start value \<open>True\<close> flipped k times, on line k + 1, however the
  rows are spread over the hours.
\<close>
theorem alternate_flips_once_per_row:
  assumes "tick E P inp prev r = Inr res" and "k < length (tick_rows res)"
  shows "row_alternate (tick_rows res ! k) = even k \<and> row_line (tick_rows res ! k) = k + 1"
proof -
  from assms(1) obtain st where
    run: "for_hours E P inp [0..<24] (init_state r) = Inr st" and rs: "tick_rows res = rows st"
    using tick_rows_for_hours by blast
  from assms(2) have k: "k < length (rows st)" by (simp add: rs)
  from rows_indexed(4) [OF run hours_small k] show ?thesis by (simp add: rs)
qed

text \<open>On the example day the seventh row belongs to the hour of two o'clock and the first to nine o'clock; the seventh is drawn with the flag up, on line 7.\<close>

theorem alternate_flips_once_per_row_witness:
  "\<exists>res. tick example_env example_params example_input [] 0 = Inr res
      \<and> 6 < length (tick_rows res)
      \<and> row_alternate (tick_rows res ! 6) \<and> row_line (tick_rows res ! 6) = 7
      \<and> row_i (tick_rows res ! 6) = 14 \<and> row_i (tick_rows res ! 0) = 9"
proof -
  let ?res = "projr (tick example_env example_params example_input [] 0)"
  have 1: "tick example_env example_params example_input [] 0 = Inr ?res"
    by (rule example_tick_runs)
  have 2: "6 < length (tick_rows ?res)" by (simp add: example_tick_rows)
  have 3: "row_i (tick_rows ?res ! 6) = 14" "row_i (tick_rows ?res ! 0) = 9" by code_simp+
  from alternate_flips_once_per_row [OF 1 2]
  have "row_alternate (tick_rows ?res ! 6) \<and> row_line (tick_rows ?res ! 6) = 7" by simp
  with 1 2 3 show ?thesis by blast
qed

text \<open>
  Claim C7. The hour label of a row is either absent or the number of the row's hour;
  when it is written, it is written at column 0 in pair 5 (current hour) if and only if
  the hour equals the reading of the wall clock taken for that row, and in pair 2
  otherwise. The k-th row of the tick uses the k-th reading after the start of the
  tick, so every row reads the clock anew.
\<close>
theorem hour_label_follows_clock:
  assumes "tick E P inp prev r = Inr res" and "k < length (tick_rows res)"
    and "rw = tick_rows res ! k"
  shows "(row_hour rw = [] \<or> row_hour rw = str_nat (row_i rw)) \<and>
     row_hour_calls rw =
       (if row_hour rw = [] then []
        else [Addstr (row_line rw) 0 (row_hour rw)
                (Color_pair (if row_i rw = localtime_hour E (r + k) then 5 else 2))])"
proof -
  from assms(1) obtain st where
    run: "for_hours E P inp [0..<24] (init_state r) = Inr st" and rs: "tick_rows res = rows st"
    using tick_rows_for_hours by blast
  have start: "rows (init_state r) = []" by (simp add: init_state_def)
  from assms(2) have k: "k < length (rows st)" by (simp add: rs)
  then have mem: "rw \<in> set (rows st)" by (simp add: assms(3) rs)
  have h: "row_hour rw = [] \<or> row_hour rw = str_nat (row_i rw)"
  proof (cases "row_ii rw")
    case None
    from rows_facts(3) [OF run start mem None] show ?thesis by simp
  next
    case (Some ii)
    from rows_facts(4) [OF run start mem Some] show ?thesis by (simp split: if_splits)
  qed
  from rows_indexed(4) [OF run hours_small k] h show ?thesis by (simp add: rs assms(3))
qed

text \<open>On the example day the clock reads 9 for the first row and 10 for the second: both hour labels, 9 and 10, are highlighted within one tick.\<close>

theorem hour_label_follows_clock_witness:
  "\<exists>res. tick example_env example_params example_input [] 0 = Inr res
      \<and> 1 < length (tick_rows res)
      \<and> localtime_hour example_env 0 = 9 \<and> localtime_hour example_env 1 = 10
      \<and> row_hour_calls (tick_rows res ! 0) = [Addstr 1 0 ''9'' (Color_pair 5)]
      \<and> row_hour_calls (tick_rows res ! 1) = [Addstr 2 0 ''10'' (Color_pair 5)]"
proof -
  let ?res = "projr (tick example_env example_params example_input [] 0)"
  have 1: "tick example_env example_params example_input [] 0 = Inr ?res"
    by (rule example_tick_runs)
  have 2: "1 < length (tick_rows ?res)" by (simp add: example_tick_rows)
  have 3: "row_hour (tick_rows ?res ! 1) = ''10''" "row_i (tick_rows ?res ! 1) = 10"
    "row_line (tick_rows ?res ! 1) = 2"
    by code_simp+
  have 4: "localtime_hour example_env 0 = 9" "localtime_hour example_env 1 = 10"
    "localtime_hour example_env (0 + 1) = 10"
    by (simp_all add: example_env_def)
  have 5: "row_hour_calls (tick_rows ?res ! 0) = [Addstr 1 0 ''9'' (Color_pair 5)]"
    by code_simp
  from hour_label_follows_clock [OF 1 2 refl]
  have "row_hour_calls (tick_rows ?res ! 1) = [Addstr 2 0 ''10'' (Color_pair 5)]"
    unfolding 3 4 by simp
  with 1 2 4 5 show ?thesis by blast
qed

text \<open>
  Claim C8. The time column of a task row, written at \<open>offsets[2]\<close> in the row's
  colour, is \<open>start_time\<close> alone when the task has no end, and \<open>start_time\<close>, a
  hyphen and the end as two-digit hour, colon, two-digit minute when it has one.
\<close>
theorem time_column_range_iff_end:
  assumes "tick E P inp prev r = Inr res" and "rw \<in> set (tick_rows res)"
    and "row_ii rw = Some ii" and "t = row_tasks rw ! ii"
  shows "(task_end t = None \<longrightarrow> row_time rw = start_time t)
     \<and> (\<forall>e. task_end t = Some e \<and> dt_hour e < 24 \<and> dt_minute e < 60 \<longrightarrow>
           row_time rw = start_time t @ ''-''
             @ [digit_char (dt_hour e div 10), digit_char (dt_hour e mod 10), CHR '':'',
                digit_char (dt_minute e div 10), digit_char (dt_minute e mod 10)])
     \<and> 2 < length (offsets inp)
     \<and> Addstr (row_line rw) (offsets inp ! 2) (row_time rw) (Color_pair (row_color rw))
          \<in> set (row_calls rw)"
proof -
  from assms(1) obtain st where
    run: "for_hours E P inp [0..<24] (init_state r) = Inr st" and rs: "tick_rows res = rows st"
    using tick_rows_for_hours by blast
  have start: "rows (init_state r) = []" by (simp add: init_state_def)
  from assms(2) have mem: "rw \<in> set (rows st)" by (simp add: rs)
  note f = rows_facts(4) [OF run start mem assms(3)]
  from f have ft: "row_time rw = format_time t" unfolding assms(4) by blast
  from f have d: "draw_task_details E P inp (row_line rw) t
                (Color_pair (row_color rw)) (row_time rw) (row_hour_calls rw) = Inr (row_calls rw)"
    unfolding assms(4) by blast
  have a: "task_end t = None \<longrightarrow> row_time rw = start_time t"
    by (simp add: ft format_time_def)
  have b: "\<forall>e. task_end t = Some e \<and> dt_hour e < 24 \<and> dt_minute e < 60 \<longrightarrow>
           row_time rw = start_time t @ ''-''
             @ [digit_char (dt_hour e div 10), digit_char (dt_hour e mod 10), CHR '':'',
                digit_char (dt_minute e div 10), digit_char (dt_minute e mod 10)]"
    by (simp add: ft format_time_def strftime_HM_def pad2_two_digits)
  from a b draw_task_details_time [OF d] show ?thesis by blast
qed

text \<open>On the example day the report task starts at 09:00 and has no end: its time column is exactly 09:00. The call task, ending at 14:05, shows a range.\<close>

theorem time_column_range_iff_end_witness:
  "\<exists>res. tick example_env example_params example_input [] 0 = Inr res
      \<and> tick_rows res ! 0 \<in> set (tick_rows res) \<and> row_ii (tick_rows res ! 0) = Some 0
      \<and> row_tasks (tick_rows res ! 0) ! 0 = report_task
      \<and> task_end report_task = None \<and> start_time report_task = ''09:00''
      \<and> row_time (tick_rows res ! 0) = ''09:00''
      \<and> Addstr 1 8 ''09:00'' (Color_pair 11) \<in> set (row_calls (tick_rows res ! 0))
      \<and> row_time (tick_rows res ! 5) = ''14:00-14:05''"
proof -
  let ?res = "projr (tick example_env example_params example_input [] 0)"
  let ?rw = "tick_rows ?res ! 0"
  have 1: "tick example_env example_params example_input [] 0 = Inr ?res"
    by (rule example_tick_runs)
  have 2: "?rw \<in> set (tick_rows ?res)" by (simp add: example_tick_rows)
  have 3: "row_ii ?rw = Some 0" by code_simp
  have 4: "report_task = row_tasks ?rw ! 0" by code_simp
  have 5: "task_end report_task = None" "start_time report_task = ''09:00''"
    by (simp_all add: report_task_def)
  have 6: "row_line ?rw = 1" "row_color ?rw = 11" "offsets example_input ! 2 = 8"
    by code_simp+
  have 7: "row_time (tick_rows ?res ! 5) = ''14:00-14:05''" by code_simp
  note h = time_column_range_iff_end [OF 1 2 3 4]
  from h have a: "row_time ?rw = ''09:00''" by (simp add: 5)
  from h have "Addstr (row_line ?rw) (offsets example_input ! 2) (row_time ?rw)
      (Color_pair (row_color ?rw)) \<in> set (row_calls ?rw)" by blast
  then have b: "Addstr 1 8 ''09:00'' (Color_pair 11) \<in> set (row_calls ?rw)"
    unfolding a 6 .
  from 1 2 3 4 5 7 a b show ?thesis by metis
qed

text \<open>
  Claim C9. The last task of a bucket (a lone task included) is never drawn in pair 10
  (CURRENT): it has no next task, so \<open>should_be_active\<close> is not consulted, and its
  colour is that of ACTIVE, OVERDUE, COMPLETED or NORMAL.
\<close>
theorem last_task_never_current:
  assumes "tick E P inp prev r = Inr res" and "rw \<in> set (tick_rows res)"
    and "row_ii rw = Some ii" and "ii + 1 = length (row_tasks rw)"
  shows "row_color rw \<noteq> 10 \<and>
     row_color rw =
       (let t = row_tasks rw ! ii in
        if active t then 8
        else if overdue E t \<and> \<not> completed t then 11
        else if completed t then (if row_alternate rw then 7 else 6)
        else (if row_alternate rw then 1 else 3))"
proof -
  from assms(1) obtain st where
    run: "for_hours E P inp [0..<24] (init_state r) = Inr st" and rs: "tick_rows res = rows st"
    using tick_rows_for_hours by blast
  have start: "rows (init_state r) = []" by (simp add: init_state_def)
  from assms(2) have mem: "rw \<in> set (rows st)" by (simp add: rs)
  note f = rows_facts(4) [OF run start mem assms(3)]
  from assms(4) have "\<not> ii + 1 < length (row_tasks rw)" by simp
  with f show ?thesis
    by (simp add: task_color_def Let_def)
qed

text \<open>On the example day \<open>should_be_active\<close> holds of every pair of tasks; the lone report task is drawn as overdue all the same.\<close>

theorem last_task_never_current_witness:
  "\<exists>res. tick example_env example_params example_input [] 0 = Inr res
      \<and> tick_rows res ! 0 \<in> set (tick_rows res) \<and> row_ii (tick_rows res ! 0) = Some 0
      \<and> 0 + 1 = length (row_tasks (tick_rows res ! 0))
      \<and> should_be_active example_env report_task report_task
      \<and> row_color (tick_rows res ! 0) = 11"
proof -
  let ?res = "projr (tick example_env example_params example_input [] 0)"
  let ?rw = "tick_rows ?res ! 0"
  have 1: "tick example_env example_params example_input [] 0 = Inr ?res"
    by (rule example_tick_runs)
  have 2: "?rw \<in> set (tick_rows ?res)" by (simp add: example_tick_rows)
  have 3: "row_ii ?rw = Some 0" by code_simp
  have 4: "0 + 1 = length (row_tasks ?rw)" by code_simp
  have 5: "should_be_active example_env report_task report_task"
    by (simp add: example_env_def)
  have 6: "row_tasks ?rw ! 0 = report_task" by code_simp
  from last_task_never_current [OF 1 2 3 4]
  have "row_color ?rw = 11"
    by (simp add: 6 Let_def) (simp add: report_task_def example_env_def)
  with 1 2 3 4 5 show ?thesis by blast
qed

text \<open>
  Claim C10. In a bucket the hour number is written on the first task's row only: the
  first row's label is the hour and is written once at column 0; on every later row of
  the bucket the label is empty and nothing is written for it, the row's writes starting
  with the fill of the line at column 5.
\<close>
theorem hour_written_on_first_task_only:
  assumes "tick E P inp prev r = Inr res" and "rw \<in> set (tick_rows res)"
    and "row_ii rw = Some ii"
  shows "(ii = 0 \<longrightarrow> row_hour rw = str_nat (row_i rw)
            \<and> (\<exists>a. row_hour_calls rw = [Addstr (row_line rw) 0 (str_nat (row_i rw)) a]))
     \<and> (0 < ii \<longrightarrow> row_hour rw = [] \<and> row_hour_calls rw = [])
     \<and> (\<exists>rest. row_calls rw = row_hour_calls rw
            @ Addstr (row_line rw) 5 (replicate (nat (max_x inp - 5)) CHR '' '')
                (Color_pair (row_color rw)) # rest)"
proof -
  from assms(1) obtain st where
    run: "for_hours E P inp [0..<24] (init_state r) = Inr st" and rs: "tick_rows res = rows st"
    using tick_rows_for_hours by blast
  have start: "rows (init_state r) = []" by (simp add: init_state_def)
  from assms(2) have mem: "rw \<in> set (rows st)" by (simp add: rs)
  then obtain k where k: "k < length (rows st)" and rk: "rows st ! k = rw"
    by (auto simp: in_set_conv_nth)
  note f = rows_facts(4) [OF run start mem assms(3)]
  note g = rows_indexed(4) [OF run hours_small k, unfolded rk]
  from f have h: "row_hour rw = (if ii = 0 then str_nat (row_i rw) else [])" by blast
  from f have d: "draw_task_details E P inp (row_line rw) (row_tasks rw ! ii)
                (Color_pair (row_color rw)) (row_time rw) (row_hour_calls rw) = Inr (row_calls rw)"
    by blast
  have a: "ii = 0 \<longrightarrow> row_hour rw = str_nat (row_i rw)
            \<and> (\<exists>a. row_hour_calls rw = [Addstr (row_line rw) 0 (str_nat (row_i rw)) a])"
    using g h by (simp add: str_nat_not_Nil)
  have b: "0 < ii \<longrightarrow> row_hour rw = [] \<and> row_hour_calls rw = []"
    using g h by simp
  from a b draw_task_details_fill [OF d] show ?thesis by blast
qed

text \<open>On the example day the review task is the second of its hour: its row has no hour label, the row before it has the label 14.\<close>

theorem hour_written_on_first_task_only_witness:
  "\<exists>res. tick example_env example_params example_input [] 0 = Inr res
      \<and> tick_rows res ! 6 \<in> set (tick_rows res) \<and> row_ii (tick_rows res ! 6) = Some 1
      \<and> row_i (tick_rows res ! 6) = 14
      \<and> row_hour (tick_rows res ! 6) = [] \<and> row_hour_calls (tick_rows res ! 6) = []
      \<and> row_hour (tick_rows res ! 5) = ''14''"
proof -
  let ?res = "projr (tick example_env example_params example_input [] 0)"
  let ?rw = "tick_rows ?res ! 6"
  have 1: "tick example_env example_params example_input [] 0 = Inr ?res"
    by (rule example_tick_runs)
  have 2: "?rw \<in> set (tick_rows ?res)" by (simp add: example_tick_rows)
  have 3: "row_ii ?rw = Some 1" by code_simp
  have 4: "row_i ?rw = 14" "row_hour (tick_rows ?res ! 5) = ''14''" by code_simp+
  from hour_written_on_first_task_only [OF 1 2 3]
  have "row_hour ?rw = [] \<and> row_hour_calls ?rw = []" by simp
  with 1 2 3 4 show ?thesis by blast
qed

subsection \<open>The rows an hour adds\<close>








subsection \<open>Empty hours\<close>



subsection \<open>The log of a tick\<close>

lemma no_Clear_in_Draw: "filter (\<lambda>e. e = Clear) (map Draw cs) = []"
  by (induction cs) simp_all

lemma tick_clears:
  assumes "tick E P inp prev r = Inr res"
  shows "tick_previous res = as_dict inp"
    and "length (filter (\<lambda>e. e = Clear) (tick_log res)) = (if as_dict inp = prev then 0 else 1)"
  using assms by (elim tick_Inr, simp add: no_Clear_in_Draw)+

lemma tick_sleeps:
  assumes "tick E P inp prev r = Inr res"
  shows "0 \<le> refresh_rate P \<and> refresh_rate P \<le> sleep_max"
    and "last (tick_log res) = Sleep (refresh_rate P)"
    and "butlast (tick_log res) = (if as_dict inp \<noteq> prev then [Clear] else [])
           @ map Draw (projr (draw_headers E (hide_projects P) (offsets inp)))
           @ map Draw (concat (map row_calls (tick_rows res))) @ [Refresh]"
  using assms by (elim tick_Inr, simp add: butlast_append)+

lemma draw_loop_clears:
  assumes "draw_loop E P inps prev r = Inr ress"
  shows "length ress = length inps \<and>
     (\<forall>k < length inps.
        length (filter (\<lambda>e. e = Clear) (tick_log (ress ! k)))
          = (if as_dict (inps ! k) = (if k = 0 then prev else as_dict (inps ! (k - 1))) then 0 else 1))"
  using assms
proof (induction inps arbitrary: prev r ress)
  case Nil
  then show ?case by simp
next
  case (Cons inp inps)
  from Cons.prems obtain res rest where
    t: "tick E P inp prev r = Inr res"
    and l: "draw_loop E P inps (tick_previous res) (tick_reads res) = Inr rest"
    and ress: "ress = res # rest"
    by (auto simp: bind_err_Inr)
  note ih = Cons.IH [OF l, unfolded tick_clears(1) [OF t]]
  show ?case
  proof (intro conjI allI impI)
    show "length ress = length (inp # inps)" using ih by (simp add: ress)
  next
    fix k assume k: "k < length (inp # inps)"
    show "length (filter (\<lambda>e. e = Clear) (tick_log (ress ! k)))
          = (if as_dict ((inp # inps) ! k)
                = (if k = 0 then prev else as_dict ((inp # inps) ! (k - 1))) then 0 else 1)"
    proof (cases k)
      case 0
      then show ?thesis using tick_clears(2) [OF t] by (simp add: ress)
    next
      case (Suc m)
      with k have m: "m < length inps" by simp
      with ih have "length (filter (\<lambda>e. e = Clear) (tick_log (rest ! m)))
          = (if as_dict (inps ! m) = (if m = 0 then as_dict inp else as_dict (inps ! (m - 1))) then 0 else 1)"
        by blast
      then show ?thesis by (cases m) (simp_all add: Suc ress)
    qed
  qed
qed

lemma draw_loop_ticks:
  assumes "draw_loop E P inps prev r = Inr ress" and "res \<in> set ress"
  shows "\<exists>inp prev' r'. tick E P inp prev' r' = Inr res"
  using assms
proof (induction inps arbitrary: prev r ress)
  case Nil
  then show ?case by simp
next
  case (Cons inp inps)
  from Cons.prems(1) obtain res0 rest where
    t: "tick E P inp prev r = Inr res0"
    and l: "draw_loop E P inps (tick_previous res0) (tick_reads res0) = Inr rest"
    and ress: "ress = res0 # rest"
    by (auto simp: bind_err_Inr)
  from Cons.prems(2) have "res = res0 \<or> res \<in> set rest" by (simp add: ress)
  then show ?case
  proof
    assume "res = res0"
    with t show ?thesis by blast
  next
    assume "res \<in> set rest"
    with Cons.IH [OF l] show ?thesis by blast
  qed
qed

subsection \<open>Clearing, headers and the refresh interval\<close>

text \<open>
  Claim C2. In a run of the loop, the tick after another one clears the window exactly
  once if the buckets it loaded differ from those of the tick before, and not at all
  if they are equal.
\<close>

theorem clear_iff_snapshot_changed:
  assumes "draw E P inps = Inr ress" and "k + 1 < length inps"
  shows "length ress = length inps \<and>
     length (filter (\<lambda>e. e = Clear) (tick_log (ress ! (k + 1))))
       = (if as_dict (inps ! (k + 1)) = as_dict (inps ! k) then 0 else 1)"
proof -
  from assms(1) have l: "draw_loop E P inps [] 0 = Inr ress" by (simp add: draw_def)
  from draw_loop_clears [OF l] assms(2) show ?thesis by simp
qed

text \<open>
  Three ticks: the example day twice, then the day without tasks. The second tick
  does not clear, the third clears once.
\<close>

theorem clear_iff_snapshot_changed_witness:
  "\<exists>ress. draw example_env example_params [example_input, example_input, empty_input] = Inr ress
     \<and> length ress = 3
     \<and> length (filter (\<lambda>e. e = Clear) (tick_log (ress ! 1))) = 0
     \<and> length (filter (\<lambda>e. e = Clear) (tick_log (ress ! 2))) = 1"
proof -
  let ?inps = "[example_input, example_input, empty_input]"
  let ?ress = "projr (draw example_env example_params ?inps)"
  have 1: "draw example_env example_params ?inps = Inr ?ress" by code_simp
  have ne: "as_dict empty_input \<noteq> as_dict example_input" by code_simp
  from clear_iff_snapshot_changed [OF 1, of 0]
  have a: "length ?ress = 3 \<and> length (filter (\<lambda>e. e = Clear) (tick_log (?ress ! 1))) = 0"
    by simp
  from clear_iff_snapshot_changed [OF 1, of 1]
  have b: "length (filter (\<lambda>e. e = Clear) (tick_log (?ress ! 2))) = 1"
    using ne by (simp add: numeral_2_eq_2)
  from 1 a b show ?thesis by blast
qed

text \<open>
  Claim C4. With \<open>hide_projects\<close> set the loop writes the headers ID, Time and
  Project and leaves Description out; the Project header is written in both modes.
\<close>

theorem headers_with_hide_projects:
  "draw_headers example_env True [0, 5, 8, 20, 28]
     = Inr [Addstr 0 5 ''ID'' (Color_pair_underline 4),
            Addstr 0 8 ''Time'' (Color_pair_underline 4),
            Addstr 0 20 ''Project'' (Color_pair_underline 4)]
   \<and> draw_headers example_env False [0, 5, 8, 20, 28]
     = Inr [Addstr 0 5 ''ID'' (Color_pair_underline 4),
            Addstr 0 8 ''Time'' (Color_pair_underline 4),
            Addstr 0 20 ''Project'' (Color_pair_underline 4),
            Addstr 0 28 ''Description'' (Color_pair_underline 4)]"
  by (simp add: draw_headers_def headers_def getitem_def addstr_def bind_err_def example_env_def
      Let_def)

subsection \<open>What the options store\<close>

lemma store_refresh_default:
  assumes "store E gs a = Inr a'" and "\<forall>s. Opt_refresh s \<notin> set gs"
  shows "args_refresh a' = args_refresh a"
  using assms
proof (induction E gs a rule: store.induct)
  case (2 E s gs a)
  from "2.prems"(2) have "Opt_refresh s \<notin> set (Opt_refresh s # gs)" by blast
  then show ?case by simp
qed (simp_all)

lemma store_append: "store E (gs @ gs') a = bind_err (store E gs a) (store E gs')"
  by (induction E gs a rule: store.induct) (simp_all add: bind_err_def split: sum.splits)

lemma store_last_refresh:
  assumes "store E (pre @ Opt_refresh s # post) a = Inr a'"
    and "\<forall>s'. Opt_refresh s' \<notin> set post"
  shows "py_int (int_max_str_digits E) s = Inr (args_refresh a')"
proof -
  from assms(1) obtain a1 where
    "store E (Opt_refresh s # post) a1 = Inr a'"
    by (auto simp: store_append bind_err_Inr)
  then obtain n where n: "py_int (int_max_str_digits E) s = Inr n"
    and r: "store E post (a1\<lparr>args_refresh := n\<rparr>) = Inr a'"
    by (auto split: sum.splits)
  from store_refresh_default [OF r assms(2)] have "args_refresh a' = n" by simp
  with n show ?thesis by simp
qed

text \<open>
  Claim C5, as stated, fails: an option \<open>-r 0\<close> is accepted and gives the refresh
  value 0, which is not positive.
\<close>

theorem refresh_zero_accepted_counterexample:
  "parse_args example_env [Opt_refresh ''0''] = Inr (default_args\<lparr>args_refresh := 0\<rparr>)
   \<and> \<not> 0 < refresh_rate (main_params (default_args\<lparr>args_refresh := 0\<rparr>))"
proof
  show "parse_args example_env [Opt_refresh ''0''] = Inr (default_args\<lparr>args_refresh := 0\<rparr>)"
    by code_simp
  show "\<not> 0 < refresh_rate (main_params (default_args\<lparr>args_refresh := 0\<rparr>))"
    by (simp add: main_params_def)
qed

text \<open>
  Claim C5, amended. The refresh value is an integer with default 1 and is not checked
  for sign. For an accepted command line it is 1 when no refresh option is given, and
  otherwise the integer that \<open>int\<close> reads from the last refresh value given. Every
  integer whose decimal spelling has at most 640 characters, positive, zero or
  negative, is accepted as a refresh value. A run started from the command line
  sleeps, at the end of every tick it completes, for exactly that many seconds, which
  are then between 0 and 9223372036.
\<close>

theorem refresh_value_and_sleep:
  assumes "parse_args E gs = Inr a"
  shows "((\<forall>s. Opt_refresh s \<notin> set gs) \<longrightarrow> args_refresh a = 1)
     \<and> (\<forall>pre s post. gs = pre @ Opt_refresh s # post \<and> (\<forall>s'. Opt_refresh s' \<notin> set post) \<longrightarrow>
           py_int (int_max_str_digits E) s = Inr (args_refresh a))
     \<and> (\<forall>n. length (str_int n) \<le> 640 \<longrightarrow>
           (\<exists>a'. parse_args E (gs @ [Opt_refresh (str_int n)]) = Inr a' \<and> args_refresh a' = n))
     \<and> (\<forall>inps ress. main E gs inps = Inr ress \<longrightarrow>
           (\<forall>res \<in> set ress. 0 \<le> args_refresh a \<and> args_refresh a \<le> sleep_max
              \<and> last (tick_log res) = Sleep (args_refresh a)
              \<and> (\<forall>n. Sleep n \<notin> set (butlast (tick_log res)))))"
proof -
  from assms have st: "store E gs default_args = Inr a" by (simp add: parse_args_def)
  have 1: "(\<forall>s. Opt_refresh s \<notin> set gs) \<longrightarrow> args_refresh a = 1"
    using store_refresh_default [OF st] by (simp add: default_args_def)
  have 2: "\<forall>pre s post. gs = pre @ Opt_refresh s # post \<and> (\<forall>s'. Opt_refresh s' \<notin> set post) \<longrightarrow>
           py_int (int_max_str_digits E) s = Inr (args_refresh a)"
    using st store_last_refresh by blast
  have 3: "\<forall>n. length (str_int n) \<le> 640 \<longrightarrow>
           (\<exists>a'. parse_args E (gs @ [Opt_refresh (str_int n)]) = Inr a' \<and> args_refresh a' = n)"
  proof (intro allI impI)
    fix n :: int
    assume "length (str_int n) \<le> 640"
    then have "py_int (int_max_str_digits E) (str_int n) = Inr n" by (rule py_int_str_int)
    then have "parse_args E (gs @ [Opt_refresh (str_int n)]) = Inr (a\<lparr>args_refresh := n\<rparr>)"
      by (simp add: parse_args_def store_append st bind_err_def)
    then show "\<exists>a'. parse_args E (gs @ [Opt_refresh (str_int n)]) = Inr a' \<and> args_refresh a' = n"
      by simp
  qed
  have rr: "refresh_rate (main_params a) = args_refresh a" by (simp add: main_params_def)
  have 4: "\<forall>inps ress. main E gs inps = Inr ress \<longrightarrow>
           (\<forall>res \<in> set ress. 0 \<le> args_refresh a \<and> args_refresh a \<le> sleep_max
              \<and> last (tick_log res) = Sleep (args_refresh a)
              \<and> (\<forall>n. Sleep n \<notin> set (butlast (tick_log res))))"
  proof (intro allI impI ballI)
    fix inps ress res
    assume m: "main E gs inps = Inr ress" and res: "res \<in> set ress"
    from m assms have d: "draw E (main_params a) inps = Inr ress"
      by (simp add: main_def bind_err_def)
    with res obtain inp prev r where t: "tick E (main_params a) inp prev r = Inr res"
      unfolding draw_def using draw_loop_ticks by blast
    have "\<forall>n. Sleep n \<notin> set (butlast (tick_log res))"
      by (auto simp: tick_sleeps(3) [OF t])
    with tick_sleeps(1,2) [OF t]
    show "0 \<le> args_refresh a \<and> args_refresh a \<le> sleep_max
              \<and> last (tick_log res) = Sleep (args_refresh a)
              \<and> (\<forall>n. Sleep n \<notin> set (butlast (tick_log res)))"
      by (simp add: rr)
  qed
  from 1 2 3 4 show ?thesis by blast
qed

text \<open>
  The command line \<open>-p\<close> gives the default 1. With \<open>-p --refresh=" 1_0 "\<close> the value
  is 10, blanks and underscore read as \<open>int\<close> reads them, and the tick of the example
  day ends with a sleep of ten seconds. With \<open>-p -r -1\<close> the command line is accepted
  and the value is \<open>-1\<close>.
\<close>

theorem refresh_value_and_sleep_witness:
  "(\<exists>a. parse_args example_env [Opt_project] = Inr a \<and> args_refresh a = 1)
   \<and> (\<exists>a ress. parse_args example_env [Opt_project, Opt_refresh '' 1_0 ''] = Inr a
         \<and> args_refresh a = 10
         \<and> main example_env [Opt_project, Opt_refresh '' 1_0 ''] [example_input] = Inr ress
         \<and> length ress = 1 \<and> last (tick_log (ress ! 0)) = Sleep 10)
   \<and> (\<exists>a. parse_args example_env [Opt_project, Opt_refresh ''-1''] = Inr a
         \<and> args_refresh a = - 1)"
proof -
  let ?g1 = "[Opt_project]"
  let ?g2 = "[Opt_project, Opt_refresh '' 1_0 '']"
  let ?a1 = "projr (parse_args example_env ?g1)"
  let ?a2 = "projr (parse_args example_env ?g2)"
  let ?ress = "projr (main example_env ?g2 [example_input])"
  have p1: "parse_args example_env ?g1 = Inr ?a1" by code_simp
  have p2: "parse_args example_env ?g2 = Inr ?a2" by code_simp
  have m: "main example_env ?g2 [example_input] = Inr ?ress" by code_simp
  have l: "length ?ress = 1" by code_simp
  have no: "\<forall>s. Opt_refresh s \<notin> set ?g1" by simp
  have dec: "?g2 = [Opt_project] @ Opt_refresh '' 1_0 '' # [] \<and> (\<forall>s'. Opt_refresh s' \<notin> set [])"
    by simp
  have v: "py_int (int_max_str_digits example_env) '' 1_0 '' = Inr 10" by code_simp
  have neg: "str_int (- 1) = ''-1''" "length (str_int (- 1)) \<le> 640" by code_simp+
  note t1 = refresh_value_and_sleep [OF p1]
  note t2 = refresh_value_and_sleep [OF p2]
  from t1 no have A: "args_refresh ?a1 = 1" by blast
  from t2 dec have "py_int (int_max_str_digits example_env) '' 1_0 '' = Inr (args_refresh ?a2)"
    by blast
  with v have B: "args_refresh ?a2 = 10" by simp
  from l have "?ress ! 0 \<in> set ?ress" by simp
  with t2 m have "last (tick_log (?ress ! 0)) = Sleep (args_refresh ?a2)" by blast
  then have C: "last (tick_log (?ress ! 0)) = Sleep 10" by (simp add: B)
  from t1 neg(2) obtain a' where
    "parse_args example_env (?g1 @ [Opt_refresh (str_int (- 1))]) = Inr a'" "args_refresh a' = - 1"
    by blast
  then have D: "\<exists>a. parse_args example_env [Opt_project, Opt_refresh ''-1''] = Inr a
         \<and> args_refresh a = - 1"
    by (auto simp: neg(1))
  from p1 A have "\<exists>a. parse_args example_env [Opt_project] = Inr a \<and> args_refresh a = 1"
    by blast
  moreover from p2 B m l C have "\<exists>a ress. parse_args example_env ?g2 = Inr a
         \<and> args_refresh a = 10
         \<and> main example_env ?g2 [example_input] = Inr ress
         \<and> length ress = 1 \<and> last (tick_log (ress ! 0)) = Sleep 10"
    by blast
  ultimately show ?thesis using D by blast
qed

end
